theory Spec2Isabelle
  imports Complex_Main "HOL-Library.Sublist" "HOL-Library.Log_Nat"
    "HOL-Library.Code_Target_Numeral"
begin

section \<open>JavaScript numbers\<close>

text \<open>
  A JavaScript \<^verbatim>\<open>number\<close> is an IEEE 754 double: a finite value, one of the two
  infinities, or NaN. A finite double is the real number it denotes. Every arithmetic
  result and every decimal literal is rounded to the nearest double, ties to the even
  significand (\<open>fl\<close>), and becomes an infinity when the rounded magnitude reaches
  \<open>2^1024\<close> (\<open>round_double\<close>). The sign of zero is not modelled: no comparison sees it.
\<close>

datatype jsnum = Num real | PosInf | NegInf | NaN

fun isFinite :: "jsnum \<Rightarrow> bool" where
  "isFinite (Num x) = True"
| "isFinite PosInf = False"
| "isFinite NegInf = False"
| "isFinite NaN = False"

text \<open>\<open>pow2 e\<close> is \<open>2\<close> to the power \<open>e\<close>, for an integer \<open>e\<close> of either sign.\<close>

definition pow2 :: "int \<Rightarrow> real" where
  "pow2 e = (if 0 \<le> e then 2 ^ nat e else 1 / 2 ^ nat (- e))"

text \<open>
  The binade of \<open>x \<noteq> 0\<close>: the integer \<open>e\<close> with \<open>2^e \<le> \<bar>x\<bar> < 2^(e+1)\<close>, counted
  from the bit length of the integer part of \<open>\<bar>x\<bar>\<close>, or of its reciprocal when
  \<open>\<bar>x\<bar> < 1\<close>.
\<close>

definition binade :: "real \<Rightarrow> int" where
  "binade x =
     (if 1 \<le> \<bar>x\<bar> then int (floorlog 2 (nat \<lfloor>\<bar>x\<bar>\<rfloor>)) - 1
      else - int (floorlog 2 (nat (\<lceil>1 / \<bar>x\<bar>\<rceil> - 1))))"

text \<open>Rounding to the nearest integer, a tie to the even one.\<close>

definition round_half_even :: "real \<Rightarrow> int" where
  "round_half_even q =
     (let f = \<lfloor>q\<rfloor>; d = q - of_int f
      in if d < 1 / 2 then f else if 1 / 2 < d then f + 1 else if even f then f else f + 1)"

text \<open>
  A double has 53 significant bits, so in the binade \<open>e\<close> the doubles are the multiples
  of \<open>2^(e - 52)\<close>; below \<open>2^(-1022)\<close> (the subnormal range) the spacing stays
  \<open>2^(-1074)\<close>.
\<close>

definition ulp_exponent :: "real \<Rightarrow> int" where
  "ulp_exponent x = max (binade x) (- 1022) - 52"

definition fl :: "real \<Rightarrow> real" where
  "fl x = pow2 (ulp_exponent x) * of_int (round_half_even (x / pow2 (ulp_exponent x)))"

definition round_double :: "real \<Rightarrow> jsnum" where
  "round_double x =
     (let y = fl x
      in if 2 ^ 1024 \<le> y then PosInf else if y \<le> - (2 ^ 1024) then NegInf else Num y)"

text \<open>A decimal literal of the source denotes the double nearest to it.\<close>

definition lit :: "real \<Rightarrow> jsnum" where
  "lit x = round_double x"


text \<open>The relational operators: every comparison with NaN is false.\<close>

fun js_lt :: "jsnum \<Rightarrow> jsnum \<Rightarrow> bool" where
  "js_lt NaN b = False"
| "js_lt a NaN = False"
| "js_lt (Num x) (Num y) = (x < y)"
| "js_lt (Num x) PosInf = True"
| "js_lt (Num x) NegInf = False"
| "js_lt PosInf b = False"
| "js_lt NegInf (Num y) = True"
| "js_lt NegInf PosInf = True"
| "js_lt NegInf NegInf = False"

fun js_le :: "jsnum \<Rightarrow> jsnum \<Rightarrow> bool" where
  "js_le NaN b = False"
| "js_le a NaN = False"
| "js_le (Num x) (Num y) = (x \<le> y)"
| "js_le (Num x) PosInf = True"
| "js_le (Num x) NegInf = False"
| "js_le PosInf PosInf = True"
| "js_le PosInf b = False"
| "js_le NegInf b = True"

definition js_gt :: "jsnum \<Rightarrow> jsnum \<Rightarrow> bool" where
  "js_gt a b = js_lt b a"

definition js_ge :: "jsnum \<Rightarrow> jsnum \<Rightarrow> bool" where
  "js_ge a b = js_le b a"

text \<open>
  Addition, subtraction and multiplication: the exact result of two finite operands is
  rounded; \<open>\<infinity> - \<infinity>\<close> and \<open>0 * \<infinity>\<close> are NaN, and NaN is absorbing.
\<close>

fun js_neg :: "jsnum \<Rightarrow> jsnum" where
  "js_neg (Num x) = Num (- x)"
| "js_neg PosInf = NegInf"
| "js_neg NegInf = PosInf"
| "js_neg NaN = NaN"

fun js_add :: "jsnum \<Rightarrow> jsnum \<Rightarrow> jsnum" where
  "js_add NaN b = NaN"
| "js_add a NaN = NaN"
| "js_add (Num x) (Num y) = round_double (x + y)"
| "js_add (Num x) b = b"
| "js_add a (Num y) = a"
| "js_add PosInf PosInf = PosInf"
| "js_add NegInf NegInf = NegInf"
| "js_add PosInf NegInf = NaN"
| "js_add NegInf PosInf = NaN"

definition js_sub :: "jsnum \<Rightarrow> jsnum \<Rightarrow> jsnum" where
  "js_sub a b = js_add a (js_neg b)"

fun signed_inf :: "bool \<Rightarrow> jsnum" where
  "signed_inf True = PosInf"
| "signed_inf False = NegInf"

fun js_mul :: "jsnum \<Rightarrow> jsnum \<Rightarrow> jsnum" where
  "js_mul NaN b = NaN"
| "js_mul a NaN = NaN"
| "js_mul (Num x) (Num y) = round_double (x * y)"
| "js_mul (Num x) PosInf = (if x = 0 then NaN else signed_inf (0 < x))"
| "js_mul (Num x) NegInf = (if x = 0 then NaN else signed_inf (x < 0))"
| "js_mul PosInf (Num y) = (if y = 0 then NaN else signed_inf (0 < y))"
| "js_mul NegInf (Num y) = (if y = 0 then NaN else signed_inf (y < 0))"
| "js_mul PosInf PosInf = PosInf"
| "js_mul NegInf NegInf = PosInf"
| "js_mul PosInf NegInf = NegInf"
| "js_mul NegInf PosInf = NegInf"

text \<open>\<^verbatim>\<open>Math.max(a, b)\<close>: NaN when either argument is NaN, else the larger one.\<close>

fun js_max :: "jsnum \<Rightarrow> jsnum \<Rightarrow> jsnum" where
  "js_max NaN b = NaN"
| "js_max a NaN = NaN"
| "js_max a b = (if js_lt a b then b else a)"

section \<open>The classifier\<close>

text \<open>
  \<^verbatim>\<open>getStatus\<close> is declared three times with the same body (in the multi-site
  dashboard, in the manual-entry form and in the single-site dashboard):
  \<^verbatim>\<open>
  if (value < min || value > max) return 'danger';
  if (value >= optimal[0] && value <= optimal[1]) return 'good';
  return 'warning';
  \<close>
\<close>

datatype status = Good | Warning | Danger

fun getStatus :: "jsnum \<Rightarrow> jsnum \<Rightarrow> jsnum \<Rightarrow> jsnum \<times> jsnum \<Rightarrow> status" where
  "getStatus v mn mx optimal =
     (if js_lt v mn \<or> js_gt v mx then Danger
      else if js_ge v (fst optimal) \<and> js_le v (snd optimal) then Good
      else Warning)"

section \<open>Sites and baselines\<close>

datatype water_type = Lake | River | Reservoir | Groundwater

record WaterBody =
  wb_id :: string
  wb_name :: string
  wb_location :: string
  wb_type :: water_type

definition waterBodies :: "WaterBody list" where
  "waterBodies =
     [\<lparr>wb_id = ''hussain-sagar'', wb_name = ''Hussain Sagar Lake'',
        wb_location = ''Central Hyderabad'', wb_type = Lake\<rparr>,
      \<lparr>wb_id = ''musi-river'', wb_name = ''Musi River'',
        wb_location = ''Old City'', wb_type = River\<rparr>,
      \<lparr>wb_id = ''himayat-sagar'', wb_name = ''Himayat Sagar'',
        wb_location = ''Rangareddy'', wb_type = Reservoir\<rparr>,
      \<lparr>wb_id = ''osman-sagar'', wb_name = ''Osman Sagar'',
        wb_location = ''Gandipet'', wb_type = Reservoir\<rparr>,
      \<lparr>wb_id = ''durgam-cheruvu'', wb_name = ''Durgam Cheruvu'',
        wb_location = ''Hi-Tech City'', wb_type = Lake\<rparr>,
      \<lparr>wb_id = ''groundwater-1'', wb_name = ''Groundwater - Jubilee Hills'',
        wb_location = ''Jubilee Hills'', wb_type = Groundwater\<rparr>]"

text \<open>
  The four parameters. A reading (\<^verbatim>\<open>WaterQualityData\<close>) is the four parameters and a
  timestamp; the source stores the timestamp as the ISO 8601 text of an instant, the
  model keeps the instant itself, in milliseconds as \<^verbatim>\<open>Date.now()\<close> counts them.
\<close>

record baseline =
  pH :: jsnum
  turbidity :: jsnum
  temperature :: jsnum
  dissolvedOxygen :: jsnum

record WaterQualityData = baseline +
  timestamp :: int

definition hussain_sagar :: baseline where
  "hussain_sagar = \<lparr>pH = lit 7.8, turbidity = lit 2.5, temperature = lit 24,
     dissolvedOxygen = lit 6.5\<rparr>"

text \<open>The own properties of the object literal \<^verbatim>\<open>baselines\<close>, in the order written.\<close>

definition baselines :: "(string \<times> baseline) list" where
  "baselines =
     [(''hussain-sagar'', hussain_sagar),
      (''musi-river'', \<lparr>pH = lit 6.8, turbidity = lit 4.0, temperature = lit 26,
         dissolvedOxygen = lit 5.5\<rparr>),
      (''himayat-sagar'', \<lparr>pH = lit 7.2, turbidity = lit 1.2, temperature = lit 22,
         dissolvedOxygen = lit 8.0\<rparr>),
      (''osman-sagar'', \<lparr>pH = lit 7.1, turbidity = lit 1.0, temperature = lit 21,
         dissolvedOxygen = lit 8.5\<rparr>),
      (''durgam-cheruvu'', \<lparr>pH = lit 7.5, turbidity = lit 1.8, temperature = lit 23,
         dissolvedOxygen = lit 7.2\<rparr>),
      (''groundwater-1'', \<lparr>pH = lit 6.9, turbidity = lit 0.5, temperature = lit 25,
         dissolvedOxygen = lit 7.8\<rparr>)]"

text \<open>
  \<^verbatim>\<open>baselines[waterBodyId]\<close> is a property read on an ordinary object: when the key is
  not an own property, the read goes on to \<^verbatim>\<open>Object.prototype\<close>, whose properties are
  the built-in methods listed here (and the accessor \<^verbatim>\<open>__proto__\<close>). Only a key found
  in neither place reads as \<^verbatim>\<open>undefined\<close>.
\<close>

definition object_prototype_names :: "string list" where
  "object_prototype_names =
     [''constructor'', ''__defineGetter__'', ''__defineSetter__'', ''hasOwnProperty'',
      ''__lookupGetter__'', ''__lookupSetter__'', ''isPrototypeOf'',
      ''propertyIsEnumerable'', ''toString'', ''valueOf'', ''__proto__'',
      ''toLocaleString'']"

text \<open>
  What a read of \<^verbatim>\<open>baselines\<close> can give: a baseline object, or the member of
  \<^verbatim>\<open>Object.prototype\<close> of that name (a function, or the prototype object itself);
  \<open>None\<close> is \<^verbatim>\<open>undefined\<close>. Both kinds of object are truthy.
\<close>

datatype jsobj = BaselineObj baseline | ProtoMember string

definition baselines_get :: "string \<Rightarrow> jsobj option" where
  "baselines_get key =
     (case map_of baselines key of
        Some b \<Rightarrow> Some (BaselineObj b)
      | None \<Rightarrow> if key \<in> set object_prototype_names then Some (ProtoMember key) else None)"

text \<open>
  \<^verbatim>\<open>return baselines[waterBodyId] || baselines['hussain-sagar'];\<close>
  The right operand is the own property \<open>hussain_sagar\<close> (lemma
  \<open>baselines_get_default\<close> below).
\<close>

definition getWaterBodyBaseline :: "string \<Rightarrow> jsobj" where
  "getWaterBodyBaseline waterBodyId =
     (case baselines_get waterBodyId of
        Some v \<Rightarrow> v
      | None \<Rightarrow> BaselineObj hussain_sagar)"

text \<open>
  \<^verbatim>\<open>baseline.pH\<close> and its like, as an operand of \<^verbatim>\<open>+\<close>: the field of a baseline
  object; on a member of \<^verbatim>\<open>Object.prototype\<close> the property is \<^verbatim>\<open>undefined\<close>, which
  \<^verbatim>\<open>+\<close> converts to NaN.
\<close>

fun num_prop :: "(baseline \<Rightarrow> jsnum) \<Rightarrow> jsobj \<Rightarrow> jsnum" where
  "num_prop field (BaselineObj b) = field b"
| "num_prop field (ProtoMember n) = NaN"

section \<open>The sample generator\<close>

text \<open>
  One call of \<^verbatim>\<open>generateWaterBodyData\<close> reads \<^verbatim>\<open>Math.random()\<close> four times, in the
  order of the fields, and the clock once. These five results are the \<open>draws\<close> of the
  call; \<^verbatim>\<open>Math.random()\<close> returns a finite number \<open>r\<close> with \<open>0 \<le> r < 1\<close>.
\<close>

record draws =
  rnd_pH :: real
  rnd_turbidity :: real
  rnd_temperature :: real
  rnd_dissolvedOxygen :: real
  clock :: int

definition valid_draws :: "draws \<Rightarrow> bool" where
  "valid_draws d =
     (0 \<le> rnd_pH d \<and> rnd_pH d < 1 \<and> 0 \<le> rnd_turbidity d \<and> rnd_turbidity d < 1
      \<and> 0 \<le> rnd_temperature d \<and> rnd_temperature d < 1
      \<and> 0 \<le> rnd_dissolvedOxygen d \<and> rnd_dissolvedOxygen d < 1)"


text \<open>\<^verbatim>\<open>(Math.random() - 0.5) * k\<close>\<close>

definition noise :: "real \<Rightarrow> real \<Rightarrow> jsnum" where
  "noise r k = js_mul (js_sub (Num r) (lit 0.5)) (lit k)"



text \<open>The object literal that \<^verbatim>\<open>generateWaterBodyData\<close> returns, for the baseline found.\<close>

definition reading_from :: "jsobj \<Rightarrow> draws \<Rightarrow> WaterQualityData" where
  "reading_from b d =
     \<lparr>pH = js_add (num_prop pH b) (noise (rnd_pH d) 1.0),
      turbidity = js_max (lit 0.1) (js_add (num_prop turbidity b) (noise (rnd_turbidity d) 1.5)),
      temperature = js_add (num_prop temperature b) (noise (rnd_temperature d) 3.0),
      dissolvedOxygen =
        js_max (lit 3) (js_add (num_prop dissolvedOxygen b) (noise (rnd_dissolvedOxygen d) 2.0)),
      timestamp = clock d\<rparr>"

definition generateWaterBodyData :: "string \<Rightarrow> draws \<Rightarrow> WaterQualityData" where
  "generateWaterBodyData waterBodyId d = reading_from (getWaterBodyBaseline waterBodyId) d"

text \<open>
  The single-site dashboard builds its readings in place:
  \<^verbatim>\<open>pH: 6.5 + Math.random() * 2, turbidity: 0.5 + Math.random() * 3,
  temperature: 20 + Math.random() * 8, dissolvedOxygen: 6 + Math.random() * 4\<close>.
\<close>

definition single_site_reading :: "draws \<Rightarrow> WaterQualityData" where
  "single_site_reading d =
     \<lparr>pH = js_add (lit 6.5) (js_mul (Num (rnd_pH d)) (lit 2)),
      turbidity = js_add (lit 0.5) (js_mul (Num (rnd_turbidity d)) (lit 3)),
      temperature = js_add (lit 20) (js_mul (Num (rnd_temperature d)) (lit 8)),
      dissolvedOxygen = js_add (lit 6) (js_mul (Num (rnd_dissolvedOxygen d)) (lit 4)),
      timestamp = clock d\<rparr>"

section \<open>The history buffer\<close>

text \<open>
  \<^verbatim>\<open>xs.slice(start)\<close>: a negative \<open>start\<close> counts from the end and stops at the
  front, a positive one stops at the length.
\<close>

definition js_slice_from :: "int \<Rightarrow> 'a list \<Rightarrow> 'a list" where
  "js_slice_from start xs =
     (let len = int (length xs);
          k = (if start < 0 then max (len + start) 0 else min start len)
      in drop (nat k) xs)"

text \<open>
  The state of the multi-site dashboard. Both objects start as \<^verbatim>\<open>{}\<close> and are only
  ever read and written at the ids of \<open>waterBodies\<close>, none of which is a property of
  \<^verbatim>\<open>Object.prototype\<close>, so a map is what they are.
\<close>

record dashboard =
  currentData :: "string \<rightharpoonup> WaterQualityData"
  historicalData :: "string \<rightharpoonup> WaterQualityData list"

definition initial_dashboard :: dashboard where
  "initial_dashboard = \<lparr>currentData = Map.empty, historicalData = Map.empty\<rparr>"

text \<open>\<^verbatim>\<open>prev[waterBody.id] || []\<close> and \<^verbatim>\<open>historicalData[selectedWaterBody] || []\<close>\<close>

definition history_of :: "(string \<rightharpoonup> WaterQualityData list) \<Rightarrow> string \<Rightarrow> WaterQualityData list" where
  "history_of h site = (case h site of Some xs \<Rightarrow> xs | None \<Rightarrow> [])"

text \<open>
  The seeding loop of both dashboards,
  \<^verbatim>\<open>for (let i = 0; i < 10; i++) historical.push({...reading, timestamp:
  new Date(Date.now() - (10 - i) * 3000).toISOString()})\<close>,
  with the reading built in round \<open>i\<close> and the result of \<^verbatim>\<open>Date.now()\<close> in round
  \<open>i\<close> as parameters.
\<close>

function seed_loop ::
  "(nat \<Rightarrow> WaterQualityData) \<Rightarrow> (nat \<Rightarrow> int) \<Rightarrow> nat \<Rightarrow> WaterQualityData list \<Rightarrow> WaterQualityData list"
where
  "seed_loop gen now i historical =
     (if i < 10
      then seed_loop gen now (i + 1)
             (historical @ [(gen i)\<lparr>timestamp := now i - (10 - int i) * 3000\<rparr>])
      else historical)"
  by pat_completeness auto
termination
  by (relation "measure (\<lambda>(gen, now, i, historical). 10 - i)") auto

declare seed_loop.simps [simp del]

text \<open>
  What the initialization effect reads: per site, the draws of the call that makes the
  current reading, and per site and round of the loop, the draws of the seeded reading and
  the result of \<^verbatim>\<open>Date.now()\<close>.
\<close>

record init_env =
  init_current :: "string \<Rightarrow> draws"
  init_seed :: "string \<Rightarrow> nat \<Rightarrow> draws"
  init_now :: "string \<Rightarrow> nat \<Rightarrow> int"

definition init_step ::
  "init_env \<Rightarrow> WaterBody \<Rightarrow> (string \<rightharpoonup> WaterQualityData) \<times> (string \<rightharpoonup> WaterQualityData list)
     \<Rightarrow> (string \<rightharpoonup> WaterQualityData) \<times> (string \<rightharpoonup> WaterQualityData list)" where
  "init_step e waterBody acc =
     (let initData = fst acc; initHistorical = snd acc;
          historical = seed_loop (\<lambda>i. generateWaterBodyData (wb_id waterBody)
                                        (init_seed e (wb_id waterBody) i))
                         (init_now e (wb_id waterBody)) 0 []
      in (initData(wb_id waterBody \<mapsto>
             generateWaterBodyData (wb_id waterBody) (init_current e (wb_id waterBody))),
          initHistorical(wb_id waterBody \<mapsto> historical)))"

definition initialize :: "init_env \<Rightarrow> dashboard" where
  "initialize e =
     (let r = fold (init_step e) waterBodies (Map.empty, Map.empty)
      in \<lparr>currentData = fst r, historicalData = snd r\<rparr>)"

text \<open>
  One timer tick: \<^verbatim>\<open>setCurrentData\<close> and \<^verbatim>\<open>setHistoricalData\<close> each copy the previous
  object and overwrite the entry of every site, with a reading of their own.
\<close>

record tick_env =
  tick_current :: "string \<Rightarrow> draws"
  tick_history :: "string \<Rightarrow> draws"

definition tick :: "dashboard \<Rightarrow> tick_env \<Rightarrow> dashboard" where
  "tick s e =
     (let prevCurrent = currentData s; prev = historicalData s
      in \<lparr>currentData =
            fold (\<lambda>waterBody updated.
                    updated(wb_id waterBody \<mapsto>
                      generateWaterBodyData (wb_id waterBody) (tick_current e (wb_id waterBody))))
              waterBodies prevCurrent,
          historicalData =
            fold (\<lambda>waterBody updated.
                    let newData = generateWaterBodyData (wb_id waterBody)
                                    (tick_history e (wb_id waterBody))
                    in updated(wb_id waterBody \<mapsto>
                         js_slice_from (- 20) (history_of prev (wb_id waterBody) @ [newData])))
              waterBodies prev\<rparr>)"

definition run_ticks :: "dashboard \<Rightarrow> tick_env list \<Rightarrow> dashboard" where
  "run_ticks s es = foldl tick s es"

text \<open>
  The single-site dashboard keeps one history:
  \<^verbatim>\<open>setHistoricalData(prev => { const updated = [...prev, newData]; return updated.slice(-20); })\<close>
  and seeds it with the same loop.
\<close>

definition single_site_tick :: "WaterQualityData list \<Rightarrow> WaterQualityData \<Rightarrow> WaterQualityData list" where
  "single_site_tick prev newData = (let updated = prev @ [newData] in js_slice_from (- 20) updated)"

definition single_site_initialize :: "(nat \<Rightarrow> draws) \<Rightarrow> (nat \<Rightarrow> int) \<Rightarrow> WaterQualityData list" where
  "single_site_initialize ds now = seed_loop (\<lambda>i. single_site_reading (ds i)) now 0 []"

text \<open>
  The history update in the words of the specification: the previous history with the
  reading appended, cut to its last 20 entries by dropping from the front.
\<close>

definition keep_last :: "nat \<Rightarrow> 'a list \<Rightarrow> 'a list" where
  "keep_last n xs = drop (length xs - n) xs"

definition spec_append :: "'a list \<Rightarrow> 'a \<Rightarrow> 'a list" where
  "spec_append history reading = keep_last 20 (history @ [reading])"

section \<open>Manual entry\<close>

text \<open>
  \<^verbatim>\<open>parseFloat\<close>: skip leading white space, read the longest prefix that is a signed
  decimal literal (\<^verbatim>\<open>Infinity\<close>, or digits with an optional fraction and an optional
  exponent), and return its value, rounded to a double; NaN when there is no such prefix. Strings are byte
  strings here, so only the ASCII white space is recognised.
\<close>

definition is_white_space :: "char \<Rightarrow> bool" where
  "is_white_space c = (c \<in> set [CHR 0x09, CHR 0x0A, CHR 0x0B, CHR 0x0C, CHR 0x0D, CHR '' ''])"

definition is_digit :: "char \<Rightarrow> bool" where
  "is_digit c = (c \<in> set ''0123456789'')"

definition digit_value :: "char \<Rightarrow> nat" where
  "digit_value c = of_char c - 48"

definition digits_value :: "string \<Rightarrow> nat" where
  "digits_value ds = foldl (\<lambda>acc c. 10 * acc + digit_value c) 0 ds"

definition split_sign :: "string \<Rightarrow> real \<times> string" where
  "split_sign s =
     (case s of
        [] \<Rightarrow> (1, [])
      | c # r \<Rightarrow> if c = CHR ''-'' then (- 1, r) else if c = CHR ''+'' then (1, r) else (1, s))"

definition pow10 :: "real \<Rightarrow> nat \<Rightarrow> real" where
  "pow10 sg n = (if sg < 0 then 1 / 10 ^ n else 10 ^ n)"

text \<open>The factor of an exponent part at the head of \<open>s\<close>; 1 when there is none.\<close>

definition exponent_factor :: "string \<Rightarrow> real" where
  "exponent_factor s =
     (case s of
        [] \<Rightarrow> 1
      | c # r \<Rightarrow>
          if c = CHR ''e'' \<or> c = CHR ''E''
          then (let sr = split_sign r; ds = takeWhile is_digit (snd sr)
                in if ds = [] then 1 else pow10 (fst sr) (digits_value ds))
          else 1)"

text \<open>
  After the integer digits: the digits of the fraction, when a point comes next, and
  what follows the fraction.
\<close>

definition fraction_digits :: "string \<Rightarrow> string" where
  "fraction_digits r1 =
     (if r1 \<noteq> [] \<and> hd r1 = CHR ''.'' then takeWhile is_digit (tl r1) else [])"

definition after_fraction :: "string \<Rightarrow> string" where
  "after_fraction r1 =
     (if r1 \<noteq> [] \<and> hd r1 = CHR ''.'' then dropWhile is_digit (tl r1) else r1)"

definition parseFloat :: "string \<Rightarrow> jsnum" where
  "parseFloat s =
     (let st = split_sign (dropWhile is_white_space s); sg = fst st; u = snd st
      in if take 8 u = ''Infinity'' then (if sg < 0 then NegInf else PosInf)
         else
           let ip = takeWhile is_digit u;
               r1 = dropWhile is_digit u;
               fp = fraction_digits r1;
               r2 = after_fraction r1
           in if ip = [] \<and> fp = [] then NaN
              else round_double
                     (sg * (real (digits_value ip) + real (digits_value fp) / 10 ^ length fp)
                        * exponent_factor r2))"

text \<open>
  The four inputs are declared \<^verbatim>\<open>type="number"\<close>. Such a control reports as its value
  either the empty string or the text of a number: the text typed is kept only when it
  is a valid floating-point number (an optional \<^verbatim>\<open>-\<close>, then digits, or a point and
  digits, or both, then optionally an exponent) whose value is a finite double, and is
  replaced by the empty string otherwise.
\<close>

definition valid_exponent :: "string \<Rightarrow> bool" where
  "valid_exponent r =
     (r = [] \<or>
      ((hd r = CHR ''e'' \<or> hd r = CHR ''E'') \<and>
       (let t = tl r;
            ds = (if t \<noteq> [] \<and> (hd t = CHR ''-'' \<or> hd t = CHR ''+'') then tl t else t)
        in ds \<noteq> [] \<and> list_all is_digit ds)))"

definition valid_floating_point_number :: "string \<Rightarrow> bool" where
  "valid_floating_point_number s =
     (let u = (if s \<noteq> [] \<and> hd s = CHR ''-'' then tl s else s);
          ip = takeWhile is_digit u;
          r1 = dropWhile is_digit u;
          point = (r1 \<noteq> [] \<and> hd r1 = CHR ''.'')
      in (if point then fraction_digits r1 \<noteq> [] else ip \<noteq> [])
         \<and> valid_exponent (after_fraction r1))"

definition number_input_value :: "string \<Rightarrow> string" where
  "number_input_value typed =
     (if valid_floating_point_number typed \<and> isFinite (parseFloat typed) then typed else [])"

text \<open>
  The form holds the text of its four inputs. \<^verbatim>\<open>isFormValid\<close> is the \<^verbatim>\<open>&&\<close> of the
  four strings, which is the first empty one or else the last; the submit button is
  \<^verbatim>\<open>disabled={!isFormValid}\<close>, and an empty string is the only falsy one.
\<close>

record form_data =
  fd_pH :: string
  fd_turbidity :: string
  fd_temperature :: string
  fd_dissolvedOxygen :: string

text \<open>
  \<^verbatim>\<open>handleInputChange(field, value)\<close> replaces one field of the form; it is called
  only by the \<^verbatim>\<open>onChange\<close> of the four inputs, each with its own field name and with
  \<^verbatim>\<open>e.target.value\<close>, the value its control reports. The form starts with four empty
  strings.
\<close>

datatype field = PH | Turbidity | Temperature | DissolvedOxygen

fun handleInputChange :: "field \<Rightarrow> string \<Rightarrow> form_data \<Rightarrow> form_data" where
  "handleInputChange PH v prev = prev\<lparr>fd_pH := v\<rparr>"
| "handleInputChange Turbidity v prev = prev\<lparr>fd_turbidity := v\<rparr>"
| "handleInputChange Temperature v prev = prev\<lparr>fd_temperature := v\<rparr>"
| "handleInputChange DissolvedOxygen v prev = prev\<lparr>fd_dissolvedOxygen := v\<rparr>"

definition initial_form :: form_data where
  "initial_form = \<lparr>fd_pH = [], fd_turbidity = [], fd_temperature = [], fd_dissolvedOxygen = []\<rparr>"

definition input_event :: "form_data \<Rightarrow> field \<times> string \<Rightarrow> form_data" where
  "input_event prev ev = handleInputChange (fst ev) (number_input_value (snd ev)) prev"

text \<open>The form after a sequence of inputs, each the field and the text typed into it.\<close>

definition form_after :: "(field \<times> string) list \<Rightarrow> form_data" where
  "form_after evs = foldl input_event initial_form evs"

definition str_and :: "string \<Rightarrow> string \<Rightarrow> string" where
  "str_and a b = (if a = [] then a else b)"

definition isFormValid :: "form_data \<Rightarrow> string" where
  "isFormValid formData =
     str_and (str_and (str_and (fd_pH formData) (fd_turbidity formData)) (fd_temperature formData))
       (fd_dissolvedOxygen formData)"

definition submit_enabled :: "form_data \<Rightarrow> bool" where
  "submit_enabled formData = (isFormValid formData \<noteq> [])"





text \<open>
  A field that parses to a number, a field as a number input can report it (empty, or
  text that parses to a finite number), and a reading all of whose values are finite.
\<close>

definition number_field :: "string \<Rightarrow> bool" where
  "number_field s = (s = [] \<or> isFinite (parseFloat s))"

definition number_fields :: "form_data \<Rightarrow> bool" where
  "number_fields formData =
     (number_field (fd_pH formData) \<and> number_field (fd_turbidity formData)
      \<and> number_field (fd_temperature formData) \<and> number_field (fd_dissolvedOxygen formData))"

definition parseable :: "string \<Rightarrow> bool" where
  "parseable s = (parseFloat s \<noteq> NaN)"


section \<open>Sample inputs\<close>

text \<open>The draws of a call in which every \<^verbatim>\<open>Math.random()\<close> returns 0.\<close>

definition lowest_draws :: draws where
  "lowest_draws = \<lparr>rnd_pH = 0, rnd_turbidity = 0, rnd_temperature = 0, rnd_dissolvedOxygen = 0,
     clock = 0\<rparr>"

text \<open>
  Four inputs with numerals typed in, and the same with \<open>abc\<close> typed into the pH
  input; the form filled with the numerals.
\<close>

definition numeric_inputs :: "(field \<times> string) list" where
  "numeric_inputs =
     [(PH, ''7.2''), (Turbidity, ''1.5''), (Temperature, ''-5''), (DissolvedOxygen, ''8.5'')]"

definition abc_inputs :: "(field \<times> string) list" where
  "abc_inputs = numeric_inputs @ [(PH, ''abc'')]"

definition form_numeric :: form_data where
  "form_numeric = \<lparr>fd_pH = ''7.2'', fd_turbidity = ''1.5'', fd_temperature = ''-5'',
     fd_dissolvedOxygen = ''8.5''\<rparr>"


text \<open>
  An initialization and a tick in which every \<^verbatim>\<open>Math.random()\<close> returns 0, the
  initialization with the clock at 30000 ms throughout.
\<close>

definition steady_init :: init_env where
  "steady_init = \<lparr>init_current = (\<lambda>site. lowest_draws), init_seed = (\<lambda>site i. lowest_draws),
     init_now = (\<lambda>site i. 30000)\<rparr>"

definition steady_tick :: tick_env where
  "steady_tick = \<lparr>tick_current = (\<lambda>site. lowest_draws), tick_history = (\<lambda>site. lowest_draws)\<rparr>"

section \<open>Properties\<close>

subsection \<open>Rounding\<close>

lemma pow2_powr: "pow2 e = 2 powr (of_int e)"
  by (simp add: pow2_def powr_int)

lemma pow2_pos [simp]: "0 < pow2 e"
  by (simp add: pow2_powr)

lemma pow2_nonneg [simp]: "0 \<le> pow2 e"
  using pow2_pos [of e] by linarith

lemma pow2_add: "pow2 (a + b) = pow2 a * pow2 b"
  by (simp add: pow2_powr powr_add)

lemma pow2_shift53: "pow2 (e - 52) * pow2 53 = pow2 (e + 1)"
proof -
  have "pow2 (e - 52) * pow2 53 = pow2 ((e - 52) + 53)"
    by (rule pow2_add [symmetric])
  also have "(e - 52) + 53 = e + 1"
    by simp
  finally show ?thesis .
qed

lemma pow2_shift52: "pow2 (e - 52) * pow2 52 = pow2 e"
proof -
  have "pow2 (e - 52) * pow2 52 = pow2 ((e - 52) + 52)"
    by (rule pow2_add [symmetric])
  also have "(e - 52) + 52 = e"
    by simp
  finally show ?thesis .
qed

lemma pow2_le_iff [simp]: "pow2 a \<le> pow2 b \<longleftrightarrow> a \<le> b"
  by (simp add: pow2_powr)

lemma pow2_less_iff [simp]: "pow2 a < pow2 b \<longleftrightarrow> a < b"
  by (simp add: pow2_powr)

lemma pow2_nat: "pow2 (int n) = 2 ^ n"
  by (simp add: pow2_def)

lemma pow2_neg_nat: "pow2 (- int n) = 1 / 2 ^ n"
  by (simp add: pow2_powr powr_minus powr_realpow field_simps)

lemma binade_bounds:
  assumes "x \<noteq> 0"
  shows "pow2 (binade x) \<le> \<bar>x\<bar>" and "\<bar>x\<bar> < pow2 (binade x + 1)"
proof -
  show "pow2 (binade x) \<le> \<bar>x\<bar>"
  proof (cases "1 \<le> \<bar>x\<bar>")
    case True
    let ?n = "nat \<lfloor>\<bar>x\<bar>\<rfloor>"
    from True have n: "0 < ?n" by simp
    then have fl0: "0 < floorlog 2 ?n"
      by (simp add: floorlog_def)
    have "2 ^ (floorlog 2 ?n - 1) \<le> ?n"
      using floorlog_bounds [OF n, of 2] by simp
    then have "(2::real) ^ (floorlog 2 ?n - 1) \<le> real ?n"
      by (metis of_nat_le_iff of_nat_numeral of_nat_power)
    also have "real ?n \<le> \<bar>x\<bar>"
      using True by (simp add: of_nat_nat)
    finally have "(2::real) ^ (floorlog 2 ?n - 1) \<le> \<bar>x\<bar>" .
    moreover have "binade x = int (floorlog 2 ?n - 1)"
      using True fl0 by (simp add: binade_def)
    ultimately show ?thesis
      by (simp add: pow2_nat)
  next
    case False
    let ?c = "nat (\<lceil>1 / \<bar>x\<bar>\<rceil> - 1)"
    from False assms have y: "1 < 1 / \<bar>x\<bar>" by simp
    then have c1: "1 < \<lceil>1 / \<bar>x\<bar>\<rceil>"
      by (simp add: less_ceiling_iff)
    then have c: "0 < ?c" by simp
    have "?c < 2 ^ floorlog 2 ?c"
      using floorlog_bounds [OF c, of 2] by simp
    then have "Suc ?c \<le> 2 ^ floorlog 2 ?c"
      by (rule Suc_leI)
    then have "real (Suc ?c) \<le> 2 ^ floorlog 2 ?c"
      by (metis of_nat_le_iff of_nat_numeral of_nat_power)
    moreover have "real ?c = of_int (\<lceil>1 / \<bar>x\<bar>\<rceil> - 1)"
      by (rule of_nat_nat) (use c1 in linarith)
    then have "real (Suc ?c) = of_int \<lceil>1 / \<bar>x\<bar>\<rceil>"
      by simp
    moreover have "1 / \<bar>x\<bar> \<le> of_int \<lceil>1 / \<bar>x\<bar>\<rceil>"
      by (rule le_of_int_ceiling)
    ultimately have "1 / \<bar>x\<bar> \<le> 2 ^ floorlog 2 ?c"
      by linarith
    then have "1 / 2 ^ floorlog 2 ?c \<le> \<bar>x\<bar>"
      using assms by (simp add: field_simps)
    moreover have "binade x = - int (floorlog 2 ?c)"
      using False by (simp add: binade_def)
    ultimately show ?thesis
      by (simp add: pow2_neg_nat)
  qed
  show "\<bar>x\<bar> < pow2 (binade x + 1)"
  proof (cases "1 \<le> \<bar>x\<bar>")
    case True
    let ?n = "nat \<lfloor>\<bar>x\<bar>\<rfloor>"
    from True have n: "0 < ?n" by simp
    then have fl0: "0 < floorlog 2 ?n"
      by (simp add: floorlog_def)
    have "?n < 2 ^ floorlog 2 ?n"
      using floorlog_bounds [OF n, of 2] by simp
    then have "Suc ?n \<le> 2 ^ floorlog 2 ?n"
      by (rule Suc_leI)
    then have "real (Suc ?n) \<le> 2 ^ floorlog 2 ?n"
      by (metis of_nat_le_iff of_nat_numeral of_nat_power)
    moreover have "\<bar>x\<bar> < real (Suc ?n)"
      using True by (simp add: of_nat_nat) linarith
    ultimately have "\<bar>x\<bar> < 2 ^ floorlog 2 ?n"
      by linarith
    moreover have "binade x + 1 = int (floorlog 2 ?n)"
      using True fl0 by (simp add: binade_def)
    ultimately show ?thesis
      by (simp add: pow2_nat)
  next
    case False
    let ?c = "nat (\<lceil>1 / \<bar>x\<bar>\<rceil> - 1)"
    from False assms have y: "1 < 1 / \<bar>x\<bar>" by simp
    then have c1: "1 < \<lceil>1 / \<bar>x\<bar>\<rceil>"
      by (simp add: less_ceiling_iff)
    then have c: "0 < ?c" by simp
    then have fl0: "0 < floorlog 2 ?c"
      by (simp add: floorlog_def)
    have "2 ^ (floorlog 2 ?c - 1) \<le> ?c"
      using floorlog_bounds [OF c, of 2] by simp
    then have "(2::real) ^ (floorlog 2 ?c - 1) \<le> real ?c"
      by (metis of_nat_le_iff of_nat_numeral of_nat_power)
    moreover have "real ?c = of_int (\<lceil>1 / \<bar>x\<bar>\<rceil> - 1)"
      by (rule of_nat_nat) (use c1 in linarith)
    then have "real ?c = of_int \<lceil>1 / \<bar>x\<bar>\<rceil> - 1"
      by simp
    moreover have "of_int \<lceil>1 / \<bar>x\<bar>\<rceil> - 1 < 1 / \<bar>x\<bar>"
      using ceiling_correct [of "1 / \<bar>x\<bar>"] by linarith
    ultimately have "(2::real) ^ (floorlog 2 ?c - 1) < 1 / \<bar>x\<bar>"
      by linarith
    then have "\<bar>x\<bar> < 1 / 2 ^ (floorlog 2 ?c - 1)"
      using assms by (simp add: field_simps)
    moreover have "binade x + 1 = - int (floorlog 2 ?c - 1)"
      using False fl0 by (simp add: binade_def)
    ultimately show ?thesis
      by (simp add: pow2_neg_nat)
  qed
qed

lemma binade_unique:
  assumes "pow2 e \<le> \<bar>x\<bar>" "\<bar>x\<bar> < pow2 (e + 1)"
  shows "binade x = e"
proof -
  have "0 < \<bar>x\<bar>"
    using assms(1) pow2_pos [of e] by linarith
  then have x: "x \<noteq> 0"
    by simp
  from binade_bounds [OF x] assms have "pow2 (binade x) < pow2 (e + 1)" "pow2 e < pow2 (binade x + 1)"
    by linarith+
  then show ?thesis
    by simp
qed

lemma binade_minus [simp]: "binade (- x) = binade x"
  by (simp add: binade_def)

lemma binade_mono:
  assumes "x \<noteq> 0" "\<bar>x\<bar> \<le> \<bar>y\<bar>"
  shows "binade x \<le> binade y"
proof -
  from assms have y: "y \<noteq> 0" by auto
  from binade_bounds(1) [OF assms(1)] binade_bounds(2) [OF y] assms(2)
  have "pow2 (binade x) < pow2 (binade y + 1)"
    by linarith
  then show ?thesis by simp
qed

lemma round_half_even_cert:
  assumes "\<bar>q - of_int m\<bar> < 1 / 2 \<or> (\<bar>q - of_int m\<bar> = 1 / 2 \<and> even m)"
  shows "round_half_even q = m"
proof -
  consider (lo) "of_int m \<le> q" "q < of_int m + 1 / 2"
    | (hi) "of_int m - 1 / 2 < q" "q < of_int m"
    | (tie_up) "q = of_int m + 1 / 2" "even m"
    | (tie_down) "q = of_int m - 1 / 2" "even m"
    using assms by (auto simp: abs_if split: if_splits)
  then show ?thesis
  proof cases
    case lo
    then have "\<lfloor>q\<rfloor> = m" by (simp add: floor_eq_iff)
    with lo show ?thesis by (simp add: round_half_even_def)
  next
    case hi
    then have f: "\<lfloor>q\<rfloor> = m - 1" by (simp add: floor_eq_iff)
    with hi show ?thesis by (simp add: round_half_even_def)
  next
    case tie_up
    then have "\<lfloor>q\<rfloor> = m" by (simp add: floor_eq_iff)
    with tie_up show ?thesis by (simp add: round_half_even_def)
  next
    case tie_down
    then have "\<lfloor>q\<rfloor> = m - 1" by (simp add: floor_eq_iff)
    with tie_down show ?thesis by (simp add: round_half_even_def)
  qed
qed

lemma round_half_even_of_int [simp]: "round_half_even (of_int m) = m"
  by (rule round_half_even_cert) simp

lemma round_half_even_spec:
  "\<bar>q - of_int (round_half_even q)\<bar> < 1 / 2
   \<or> (\<bar>q - of_int (round_half_even q)\<bar> = 1 / 2 \<and> even (round_half_even q))"
proof -
  define f where "f = \<lfloor>q\<rfloor>"
  define d where "d = q - of_int f"
  have d: "0 \<le> d" "d < 1"
    unfolding d_def f_def by linarith+
  have q: "q = of_int f + d"
    by (simp add: d_def)
  have r: "round_half_even q =
      (if d < 1 / 2 then f else if 1 / 2 < d then f + 1 else if even f then f else f + 1)"
    unfolding round_half_even_def Let_def d_def f_def by (rule refl)
  consider "d < 1 / 2" | "1 / 2 < d" | "d = 1 / 2" "even f" | "d = 1 / 2" "odd f"
    by fastforce
  then show ?thesis
  proof cases
    case 1
    then have "round_half_even q = f"
      by (simp add: r)
    with 1 d show ?thesis by (simp add: q)
  next
    case 2
    then have "round_half_even q = f + 1"
      by (simp add: r)
    with 2 d show ?thesis by (simp add: q)
  next
    case 3
    then have "round_half_even q = f"
      by (simp add: r)
    with 3 show ?thesis by (simp add: q)
  next
    case 4
    then have "round_half_even q = f + 1"
      by (simp add: r)
    with 4 show ?thesis by (simp add: q)
  qed
qed

lemma round_half_even_minus: "round_half_even (- q) = - round_half_even q"
proof (rule round_half_even_cert)
  have "\<bar>- q - of_int (- round_half_even q)\<bar> = \<bar>q - of_int (round_half_even q)\<bar>"
    by simp
  with round_half_even_spec [of q]
  show "\<bar>- q - of_int (- round_half_even q)\<bar> < 1 / 2
    \<or> (\<bar>- q - of_int (- round_half_even q)\<bar> = 1 / 2 \<and> even (- round_half_even q))"
    by (simp only: even_minus)
qed

lemma round_half_even_mono:
  assumes "p \<le> q"
  shows "round_half_even p \<le> round_half_even q"
proof (cases "\<lfloor>p\<rfloor> = \<lfloor>q\<rfloor>")
  case True
  with assms show ?thesis
    by (auto simp: round_half_even_def Let_def)
next
  case False
  with assms have "\<lfloor>p\<rfloor> < \<lfloor>q\<rfloor>"
    using floor_mono [OF assms] by linarith
  moreover have "round_half_even p \<le> \<lfloor>p\<rfloor> + 1" "\<lfloor>q\<rfloor> \<le> round_half_even q"
    by (auto simp: round_half_even_def Let_def)
  ultimately show ?thesis by linarith
qed

lemma fl_zero [simp]: "fl 0 = 0"
  by (simp add: fl_def round_half_even_def)

lemma fl_minus: "fl (- x) = - fl x"
  by (simp add: fl_def ulp_exponent_def round_half_even_minus)

lemma fl_cert:
  assumes "pow2 e \<le> \<bar>x\<bar>" "\<bar>x\<bar> < pow2 (e + 1)" "- 1022 \<le> e"
    and "\<bar>x / pow2 (e - 52) - of_int m\<bar> < 1 / 2
         \<or> (\<bar>x / pow2 (e - 52) - of_int m\<bar> = 1 / 2 \<and> even m)"
  shows "fl x = pow2 (e - 52) * of_int m"
proof -
  have "binade x = e"
    using assms(1,2) by (rule binade_unique)
  with assms(3) have "ulp_exponent x = e - 52"
    by (simp add: ulp_exponent_def)
  with round_half_even_cert [OF assms(4)] show ?thesis
    by (simp add: fl_def)
qed

lemma fl_mono_pos:
  assumes "0 < x" "x \<le> y"
  shows "fl x \<le> fl y"
proof -
  let ?ex = "max (binade x) (- 1022)" and ?ey = "max (binade y) (- 1022)"
  from assms have x0: "x \<noteq> 0" and y0: "y \<noteq> 0" by auto
  have "binade x \<le> binade y"
    using assms by (intro binade_mono) auto
  then have le: "?ex \<le> ?ey" by simp
  show ?thesis
  proof (cases "?ex = ?ey")
    case True
    then have u: "ulp_exponent x = ulp_exponent y"
      by (simp add: ulp_exponent_def)
    have "x / pow2 (ulp_exponent y) \<le> y / pow2 (ulp_exponent y)"
      using assms(2) by (rule divide_right_mono) simp
    then have "round_half_even (x / pow2 (ulp_exponent y)) \<le> round_half_even (y / pow2 (ulp_exponent y))"
      by (rule round_half_even_mono)
    then show ?thesis
      by (simp add: fl_def u)
  next
    case False
    with le have lt: "?ex < ?ey" by (metis order_le_less)
    have ux: "ulp_exponent x = ?ex - 52" and uy: "ulp_exponent y = ?ey - 52"
      by (simp_all add: ulp_exponent_def)
    have "x < pow2 (binade x + 1)"
      using binade_bounds(2) [OF x0] assms by simp
    also have "\<dots> \<le> pow2 (?ex + 1)"
      by simp
    finally have "x < pow2 (?ex + 1)" .
    moreover have "pow2 (?ex + 1) = pow2 (?ex - 52) * pow2 53"
      by (simp only: pow2_shift53)
    ultimately have "x / pow2 (?ex - 52) \<le> pow2 53"
      by (simp add: field_simps)
    moreover have p53: "pow2 53 = of_int (2 ^ 53)"
      by (simp add: pow2_def)
    ultimately have "round_half_even (x / pow2 (?ex - 52)) \<le> round_half_even (of_int (2 ^ 53))"
      by (intro round_half_even_mono) simp
    then have "round_half_even (x / pow2 (?ex - 52)) \<le> 2 ^ 53"
      by (simp only: round_half_even_of_int)
    then have "real_of_int (round_half_even (x / pow2 (?ex - 52))) \<le> of_int (2 ^ 53)"
      by (simp only: of_int_le_iff)
    then have "pow2 (?ex - 52) * real_of_int (round_half_even (x / pow2 (?ex - 52)))
        \<le> pow2 (?ex - 52) * pow2 53"
      unfolding p53 by (intro mult_left_mono) simp_all
    then have a: "fl x \<le> pow2 (?ex + 1)"
      by (simp only: fl_def ux pow2_shift53)
    from lt have ey_eq: "?ey = binade y"
      by (simp add: max_def split: if_splits)
    have "pow2 ?ey \<le> y"
      using binade_bounds(1) [OF y0] assms by (simp add: ey_eq)
    moreover have "pow2 ?ey = pow2 (?ey - 52) * pow2 52"
      by (simp only: pow2_shift52)
    ultimately have "pow2 52 \<le> y / pow2 (?ey - 52)"
      by (simp add: field_simps)
    moreover have p52: "pow2 52 = of_int (2 ^ 52)"
      by (simp add: pow2_def)
    ultimately have "round_half_even (of_int (2 ^ 52)) \<le> round_half_even (y / pow2 (?ey - 52))"
      by (intro round_half_even_mono) simp
    then have "2 ^ 52 \<le> round_half_even (y / pow2 (?ey - 52))"
      by (simp only: round_half_even_of_int)
    then have "of_int (2 ^ 52) \<le> real_of_int (round_half_even (y / pow2 (?ey - 52)))"
      by (simp only: of_int_le_iff)
    then have "pow2 (?ey - 52) * pow2 52
        \<le> pow2 (?ey - 52) * real_of_int (round_half_even (y / pow2 (?ey - 52)))"
      unfolding p52 by (intro mult_left_mono) simp_all
    then have b: "pow2 ?ey \<le> fl y"
      by (simp only: fl_def uy pow2_shift52)
    from lt have "?ex + 1 \<le> ?ey"
      by linarith
    then have "pow2 (?ex + 1) \<le> pow2 ?ey"
      by (simp only: pow2_le_iff)
    with a b show ?thesis by linarith
  qed
qed

lemma fl_nonneg: "0 \<le> x \<Longrightarrow> 0 \<le> fl x"
proof -
  assume "0 \<le> x"
  then have "0 \<le> x / pow2 (ulp_exponent x)"
    by (rule divide_nonneg_pos) simp
  then have "round_half_even 0 \<le> round_half_even (x / pow2 (ulp_exponent x))"
    by (rule round_half_even_mono)
  then show ?thesis
    by (simp add: fl_def round_half_even_def)
qed

lemma fl_mono:
  assumes "x \<le> y"
  shows "fl x \<le> fl y"
proof -
  consider "0 < x" | "x \<le> 0" "0 \<le> y" | "y < 0"
    using assms by linarith
  then show ?thesis
  proof cases
    case 1
    then show ?thesis using assms by (rule fl_mono_pos)
  next
    case 2
    then have "0 \<le> fl y" "0 \<le> fl (- x)"
      by (simp_all add: fl_nonneg)
    then show ?thesis
      by (simp add: fl_minus)
  next
    case 3
    then have "fl (- y) \<le> fl (- x)"
      using assms by (intro fl_mono_pos) simp_all
    then show ?thesis
      by (simp add: fl_minus)
  qed
qed


text \<open>Rounding keeps a value between two doubles that enclose it.\<close>

lemma fl_between:
  assumes "fl lo = lo" "fl hi = hi" "lo \<le> x" "x \<le> hi"
  shows "lo \<le> fl x" "fl x \<le> hi"
  using fl_mono [OF assms(3)] fl_mono [OF assms(4)] assms(1,2) by simp_all

subsection \<open>Numbers\<close>

lemma js_lt_NaN_right [simp]: "js_lt a NaN = False"
  by (cases a) simp_all

lemma js_le_NaN_right [simp]: "js_le a NaN = False"
  by (cases a) simp_all

lemma round_double_not_NaN [simp]: "round_double x \<noteq> NaN"
  by (simp add: round_double_def Let_def)

lemma round_double_Num: "\<bar>fl x\<bar> < 2 ^ 1024 \<Longrightarrow> round_double x = Num (fl x)"
  by (auto simp: round_double_def Let_def)

subsection \<open>The classifier\<close>

text \<open>
  C1. For a finite value and finite thresholds, \<open>getStatus\<close> returns danger exactly when
  the value is below \<open>min\<close> or above \<open>max\<close>, good exactly when it lies in
  \<open>[min, max]\<close> and in the optimal range, and warning exactly in the remaining case;
  the result is always one of the three statuses; and the three sample calls with the pH
  thresholds give good, danger and warning.
\<close>

theorem getStatus_classifies:
  "(getStatus (Num v) (Num mn) (Num mx) (Num lo, Num hi) = Danger \<longleftrightarrow> (v < mn \<or> v > mx))
   \<and> (getStatus (Num v) (Num mn) (Num mx) (Num lo, Num hi) = Good
        \<longleftrightarrow> (mn \<le> v \<and> v \<le> mx \<and> lo \<le> v \<and> v \<le> hi))
   \<and> (getStatus (Num v) (Num mn) (Num mx) (Num lo, Num hi) = Warning
        \<longleftrightarrow> (mn \<le> v \<and> v \<le> mx \<and> (v < lo \<or> hi < v)))
   \<and> getStatus x xmn xmx xopt \<in> {Good, Warning, Danger}
   \<and> getStatus (Num 7.0) (Num 6.0) (Num 8.5) (Num 6.5, Num 7.5) = Good
   \<and> getStatus (Num 5.9) (Num 6.0) (Num 8.5) (Num 6.5, Num 7.5) = Danger
   \<and> getStatus (Num 6.2) (Num 6.0) (Num 8.5) (Num 6.5, Num 7.5) = Warning"
proof -
  have total: "getStatus x xmn xmx xopt \<in> {Good, Warning, Danger}"
    by (cases "getStatus x xmn xmx xopt") simp_all
  have general:
    "(getStatus (Num v) (Num mn) (Num mx) (Num lo, Num hi) = Danger \<longleftrightarrow> (v < mn \<or> v > mx))
     \<and> (getStatus (Num v) (Num mn) (Num mx) (Num lo, Num hi) = Good
          \<longleftrightarrow> (mn \<le> v \<and> v \<le> mx \<and> lo \<le> v \<and> v \<le> hi))
     \<and> (getStatus (Num v) (Num mn) (Num mx) (Num lo, Num hi) = Warning
          \<longleftrightarrow> (mn \<le> v \<and> v \<le> mx \<and> (v < lo \<or> hi < v)))"
    by (auto simp: js_gt_def js_ge_def)
  have samples:
    "getStatus (Num 7.0) (Num 6.0) (Num 8.5) (Num 6.5, Num 7.5) = Good
     \<and> getStatus (Num 5.9) (Num 6.0) (Num 8.5) (Num 6.5, Num 7.5) = Danger
     \<and> getStatus (Num 6.2) (Num 6.0) (Num 8.5) (Num 6.5, Num 7.5) = Warning"
    by (simp add: js_gt_def js_ge_def)
  from total general samples show ?thesis by blast
qed

theorem getStatus_classifies_witness:
  "getStatus (Num 9) (Num 6.0) (Num 8.5) (Num 6.5, Num 7.5) = Danger
   \<and> getStatus (Num 8) (Num 6.0) (Num 8.5) (Num 6.5, Num 7.5) = Warning
   \<and> getStatus (Num 7) (Num 6.0) (Num 8.5) (Num 6.5, Num 7.5) = Good"
  using getStatus_classifies [of 9 "6.0" "8.5" "6.5" "7.5"]
    getStatus_classifies [of 8 "6.0" "8.5" "6.5" "7.5"]
    getStatus_classifies [of 7 "6.0" "8.5" "6.5" "7.5"]
  by simp

text \<open>
  C10. \<open>getStatus\<close> has no failing branch, and a NaN value is classified warning
  whatever the thresholds are (NaN and the infinities included), because both the
  range test and the optimal-range test compare with NaN and so are false.
\<close>

theorem getStatus_NaN:
  "getStatus NaN mn mx optimal = Warning"
proof -
  have "\<not> (js_lt NaN mn \<or> js_gt NaN mx)"
    by (simp add: js_gt_def)
  moreover have "\<not> (js_ge NaN (fst optimal) \<and> js_le NaN (snd optimal))"
    by simp
  ultimately show ?thesis
    by simp
qed

subsection \<open>The baseline lookup\<close>


lemma getWaterBodyBaseline_known:
  "map_of baselines waterBodyId = Some b \<Longrightarrow> getWaterBodyBaseline waterBodyId = BaselineObj b"
  by (simp add: getWaterBodyBaseline_def baselines_get_def)


lemma getWaterBodyBaseline_inherited:
  "map_of baselines waterBodyId = None \<Longrightarrow> waterBodyId \<in> set object_prototype_names
     \<Longrightarrow> getWaterBodyBaseline waterBodyId = ProtoMember waterBodyId"
  by (simp add: getWaterBodyBaseline_def baselines_get_def)

lemma site_has_baseline:
  "wb \<in> set waterBodies \<Longrightarrow> map_of baselines (wb_id wb) \<noteq> None"
  by (auto simp: waterBodies_def baselines_def)





subsection \<open>The generator under rounding\<close>

lemma fl_64: "fl 64 = 64"
proof -
  have "fl 64 = pow2 (6 - 52) * of_int 4503599627370496"
    by (rule fl_cert) (simp_all add: pow2_def)
  then show ?thesis
    by (simp add: pow2_def)
qed

lemma fl_abs_le:
  assumes "fl c = c" "\<bar>x\<bar> \<le> c"
  shows "\<bar>fl x\<bar> \<le> c"
proof -
  have "fl (- c) \<le> fl x" "fl x \<le> fl c"
    using assms(2) by (intro fl_mono; linarith)+
  then show ?thesis
    by (simp add: fl_minus assms(1) abs_le_iff)
qed

lemma fl_small: "\<bar>x\<bar> \<le> 64 \<Longrightarrow> \<bar>fl x\<bar> \<le> 64"
  using fl_64 by (rule fl_abs_le)

lemma round_double_small: "\<bar>x\<bar> \<le> 64 \<Longrightarrow> round_double x = Num (fl x)"
proof -
  assume "\<bar>x\<bar> \<le> 64"
  then have "\<bar>fl x\<bar> \<le> 64"
    by (rule fl_small)
  moreover have "(64::real) < 2 ^ 1024"
    by simp
  ultimately have "\<bar>fl x\<bar> < 2 ^ 1024"
    by linarith
  then show ?thesis
    by (rule round_double_Num)
qed

lemma lit_small: "\<bar>x\<bar> \<le> 64 \<Longrightarrow> lit x = Num (fl x)"
  by (simp add: lit_def round_double_small)

lemma fl_half: "fl (1 / 2) = 1 / 2"
proof -
  have "fl (1 / 2) = pow2 (- 1 - 52) * of_int 4503599627370496"
    by (rule fl_cert) (simp_all add: pow2_def)
  then show ?thesis
    by (simp add: pow2_def)
qed


lemma lit_half: "lit (1 / 2) = Num (1 / 2)"
  using fl_half by (simp add: lit_small)



















lemma fl_6_5: "fl (6 / 5) = 5404319552844595 / 2 ^ 52"
proof -
  have "fl (6 / 5) = pow2 (0 - 52) * of_int 5404319552844595"
    by (rule fl_cert) (simp_all add: pow2_def)
  then show ?thesis
    by (simp add: pow2_def)
qed

lemma lit_6_5: "lit (6 / 5) = Num (5404319552844595 / 2 ^ 52)"
  using fl_6_5 by (simp add: lit_small)

























lemma fl_1_10: "fl (1 / 10) = 3602879701896397 / 2 ^ 55"
proof -
  have "fl (1 / 10) = pow2 (-4 - 52) * of_int 7205759403792794"
    by (rule fl_cert) (simp_all add: pow2_def)
  then show ?thesis
    by (simp add: pow2_def)
qed

lemma lit_1_10: "lit (1 / 10) = Num (3602879701896397 / 2 ^ 55)"
  using fl_1_10 by (simp add: lit_small)

lemma fl_3: "fl 3 = 3"
proof -
  have "fl 3 = pow2 (1 - 52) * of_int 6755399441055744"
    by (rule fl_cert) (simp_all add: pow2_def)
  then show ?thesis
    by (simp add: pow2_def)
qed

lemma lit_3: "lit 3 = Num 3"
  using fl_3 by (simp add: lit_small)

lemma fl_3_2: "fl (3 / 2) = 3 / 2"
proof -
  have "fl (3 / 2) = pow2 (0 - 52) * of_int 6755399441055744"
    by (rule fl_cert) (simp_all add: pow2_def)
  then show ?thesis
    by (simp add: pow2_def)
qed

lemma lit_3_2: "lit (3 / 2) = Num (3 / 2)"
  using fl_3_2 by (simp add: lit_small)

lemma fl_2: "fl 2 = 2"
proof -
  have "fl 2 = pow2 (1 - 52) * of_int 4503599627370496"
    by (rule fl_cert) (simp_all add: pow2_def)
  then show ?thesis
    by (simp add: pow2_def)
qed

lemma lit_2: "lit 2 = Num 2"
  using fl_2 by (simp add: lit_small)

lemma fl_32: "fl 32 = 32"
proof -
  have "fl 32 = pow2 (5 - 52) * of_int 4503599627370496"
    by (rule fl_cert) (simp_all add: pow2_def)
  then show ?thesis
    by (simp add: pow2_def)
qed

lemma lit_32: "lit 32 = Num 32"
  using fl_32 by (simp add: lit_small)

text \<open>
  The noise term \<^verbatim>\<open>(Math.random() - 0.5) * k\<close> for a draw in \<open>[0, 1)\<close>: a finite
  value of magnitude at most 2.
\<close>

lemma centred_draw:
  assumes "0 \<le> r" "r < 1"
  shows "js_sub (Num r) (lit (1 / 2)) = Num (fl (r - 1 / 2))"
    and "- (1 / 2) \<le> fl (r - 1 / 2)" and "fl (r - 1 / 2) \<le> 1 / 2"
proof -
  have "\<bar>r + - (1 / 2)\<bar> \<le> 64"
    using assms by linarith
  then show "js_sub (Num r) (lit (1 / 2)) = Num (fl (r - 1 / 2))"
    by (simp add: js_sub_def lit_half round_double_small)
  have "fl (- (1 / 2)) \<le> fl (r - 1 / 2)" "fl (r - 1 / 2) \<le> fl (1 / 2)"
    using assms by (intro fl_mono; linarith)+
  then show "- (1 / 2) \<le> fl (r - 1 / 2)" "fl (r - 1 / 2) \<le> 1 / 2"
    by (simp_all add: fl_minus fl_half)
qed

lemma noise_finite:
  assumes "0 \<le> r" "r < 1" "0 \<le> k" "k \<le> 4" "fl k = k"
  shows "\<exists>n. noise r k = Num n \<and> \<bar>n\<bar> \<le> 2"
proof -
  let ?s = "fl (r - 1 / 2)"
  note c = centred_draw [OF assms(1,2)]
  have "\<bar>?s\<bar> \<le> 1 / 2"
    using c(2,3) by linarith
  then have "\<bar>?s\<bar> * \<bar>k\<bar> \<le> (1 / 2) * 4"
    using assms by (intro mult_mono) simp_all
  then have sk: "\<bar>?s * k\<bar> \<le> 2"
    by (simp add: abs_mult)
  have k: "lit k = Num k"
    using assms by (simp add: lit_small)
  have "noise r k = Num (fl (?s * k))"
    using sk by (simp add: noise_def c(1) k round_double_small)
  moreover have "\<bar>fl (?s * k)\<bar> \<le> 2"
    using fl_2 sk by (rule fl_abs_le)
  ultimately show ?thesis by blast
qed



































lemma site_hussain: "\<lparr>wb_id = ''hussain-sagar'', wb_name = ''Hussain Sagar Lake'',
        wb_location = ''Central Hyderabad'', wb_type = Lake\<rparr> \<in> set waterBodies"
  by (simp add: waterBodies_def)


text \<open>
  At the lowest draw the turbidity generated for \<open>himayat-sagar\<close> is the double
  \<open>0.44999999999999996\<close>, one unit in the last place below \<open>1.2 - 0.75\<close>.
\<close>

lemma himayat_sagar_lowest_turbidity:
  "turbidity (generateWaterBodyData ''himayat-sagar'' lowest_draws) = Num (2026619832316723 / 2 ^ 52)"
proof -
  have "fl (3 / 4) = pow2 (-1 - 52) * of_int 6755399441055744"
    by (rule fl_cert) (simp_all add: pow2_def)
  then have m: "fl (3 / 4) = 3 / 4"
    by (simp add: pow2_def)
  have "fl (5404319552844595 / 2 ^ 52 + - (3 / 4)) = pow2 (-2 - 52) * of_int 8106479329266892"
    by (rule fl_cert) (simp_all add: pow2_def)
  then have s: "fl (5404319552844595 / 2 ^ 52 + - (3 / 4)) = 2026619832316723 / 2 ^ 52"
    by (simp add: pow2_def)
  have n: "noise 0 (3 / 2) = Num (- (3 / 4))"
    using centred_draw(1) [of 0] m
    by (simp add: noise_def fl_minus fl_half lit_3_2 round_double_small)
  have "js_add (lit (6 / 5)) (noise 0 (3 / 2)) = Num (2026619832316723 / 2 ^ 52)"
    using s by (simp add: lit_6_5 n round_double_small)
  then show ?thesis
    by (simp add: generateWaterBodyData_def reading_from_def getWaterBodyBaseline_def
          baselines_get_def baselines_def lowest_draws_def lit_1_10)
qed

subsection \<open>The floors of turbidity and dissolved oxygen\<close>

lemma lit_not_NaN [simp]: "lit x \<noteq> NaN"
  by (simp add: lit_def)

lemma js_add_not_NaN: "x \<noteq> NaN \<Longrightarrow> js_add x (Num n) \<noteq> NaN"
  by (cases x) simp_all

lemma js_max_floor:
  assumes "lit c = Num c'" "c \<le> c'" "y \<noteq> NaN"
  shows "js_ge (js_max (lit c) y) (Num c)"
  using assms by (cases y) (simp_all add: js_ge_def)

lemma generated_floor_field:
  assumes "v \<noteq> NaN" "0 \<le> r" "r < 1" "0 \<le> k" "k \<le> 4" "fl k = k"
    and "lit c = Num c'" "c \<le> c'"
  shows "js_ge (js_max (lit c) (js_add v (noise r k))) (Num c)"
proof -
  from noise_finite [OF assms(2-6)] obtain n where "noise r k = Num n"
    by blast
  then have "js_add v (noise r k) \<noteq> NaN"
    using assms(1) by (simp add: js_add_not_NaN)
  with assms(7,8) show ?thesis
    by (rule js_max_floor)
qed

lemma baselines_numeric:
  "map_of baselines wid = Some sb \<Longrightarrow> turbidity sb \<noteq> NaN \<and> dissolvedOxygen sb \<noteq> NaN"
  by (auto simp: baselines_def hussain_sagar_def split: if_splits)

text \<open>
  C5. For every draw of \<^verbatim>\<open>Math.random()\<close>, a reading generated from a baseline
  whose turbidity and dissolved oxygen are numbers (not NaN) has turbidity at least 0.1
  and dissolved oxygen at least 3.0; so has the reading generated for each site of
  \<open>waterBodies\<close>.
\<close>

theorem generated_floors:
  assumes "valid_draws d"
  shows "(turbidity b \<noteq> NaN \<longrightarrow> js_ge (turbidity (reading_from (BaselineObj b) d)) (Num 0.1))
    \<and> (dissolvedOxygen b \<noteq> NaN
         \<longrightarrow> js_ge (dissolvedOxygen (reading_from (BaselineObj b) d)) (Num 3.0))
    \<and> (\<forall>wb \<in> set waterBodies.
          js_ge (turbidity (generateWaterBodyData (wb_id wb) d)) (Num 0.1)
          \<and> js_ge (dissolvedOxygen (generateWaterBodyData (wb_id wb) d)) (Num 3.0))"
proof -
  from assms have vd: "0 \<le> rnd_turbidity d" "rnd_turbidity d < 1"
      "0 \<le> rnd_dissolvedOxygen d" "rnd_dissolvedOxygen d < 1"
    by (simp_all add: valid_draws_def)
  have t: "js_ge (turbidity (reading_from (BaselineObj x) d)) (Num 0.1)"
    if "turbidity x \<noteq> NaN" for x
  proof -
    have "js_ge (js_max (lit (1 / 10)) (js_add (turbidity x) (noise (rnd_turbidity d) (3 / 2))))
            (Num (1 / 10))"
      by (rule generated_floor_field [OF that vd(1,2) _ _ fl_3_2 lit_1_10]) simp_all
    then show ?thesis
      by (simp add: reading_from_def)
  qed
  have o: "js_ge (dissolvedOxygen (reading_from (BaselineObj x) d)) (Num 3.0)"
    if "dissolvedOxygen x \<noteq> NaN" for x
  proof -
    have "js_ge (js_max (lit 3) (js_add (dissolvedOxygen x) (noise (rnd_dissolvedOxygen d) 2)))
            (Num 3)"
      by (rule generated_floor_field [OF that vd(3,4) _ _ fl_2 lit_3]) simp_all
    then show ?thesis
      by (simp add: reading_from_def)
  qed
  have s: "\<forall>wb \<in> set waterBodies.
          js_ge (turbidity (generateWaterBodyData (wb_id wb) d)) (Num 0.1)
          \<and> js_ge (dissolvedOxygen (generateWaterBodyData (wb_id wb) d)) (Num 3.0)"
  proof
    fix wb assume "wb \<in> set waterBodies"
    from site_has_baseline [OF this] obtain sb
      where sb: "map_of baselines (wb_id wb) = Some sb"
      by blast
    then have g: "generateWaterBodyData (wb_id wb) d = reading_from (BaselineObj sb) d"
      by (simp add: generateWaterBodyData_def getWaterBodyBaseline_known)
    from baselines_numeric [OF sb] have "turbidity sb \<noteq> NaN" "dissolvedOxygen sb \<noteq> NaN"
      by simp_all
    then show "js_ge (turbidity (generateWaterBodyData (wb_id wb) d)) (Num 0.1)
          \<and> js_ge (dissolvedOxygen (generateWaterBodyData (wb_id wb) d)) (Num 3.0)"
      using t o g by simp
  qed
  from t o s show ?thesis by blast
qed

lemma site_groundwater: "\<lparr>wb_id = ''groundwater-1'', wb_name = ''Groundwater - Jubilee Hills'',
        wb_location = ''Jubilee Hills'', wb_type = Groundwater\<rparr> \<in> set waterBodies"
  by (simp add: waterBodies_def)

theorem generated_floors_witness:
  "valid_draws lowest_draws
   \<and> js_ge (turbidity (generateWaterBodyData ''groundwater-1'' lowest_draws)) (Num 0.1)
   \<and> js_ge (dissolvedOxygen (generateWaterBodyData ''groundwater-1'' lowest_draws)) (Num 3.0)"
proof -
  have d: "valid_draws lowest_draws"
    by (simp add: valid_draws_def lowest_draws_def)
  from generated_floors [OF d] site_groundwater d show ?thesis
    by fastforce
qed

subsection \<open>Finite readings from the generator\<close>





subsection \<open>Manual entry\<close>

lemma str_and_nonempty: "str_and a b \<noteq> [] \<longleftrightarrow> a \<noteq> [] \<and> b \<noteq> []"
  by (simp add: str_and_def)

lemma submit_enabled_iff:
  "submit_enabled fd \<longleftrightarrow>
     fd_pH fd \<noteq> [] \<and> fd_turbidity fd \<noteq> [] \<and> fd_temperature fd \<noteq> []
     \<and> fd_dissolvedOxygen fd \<noteq> []"
  by (simp add: submit_enabled_def isFormValid_def str_and_nonempty)

lemma parseFloat_empty: "parseFloat [] = NaN"
  by (simp add: parseFloat_def split_sign_def fraction_digits_def)

lemma parseable_nonempty: "parseable s \<Longrightarrow> s \<noteq> []"
  by (auto simp: parseable_def parseFloat_empty)

lemma number_field_parseable: "number_field s \<Longrightarrow> s \<noteq> [] \<Longrightarrow> parseable s"
  by (cases "parseFloat s") (simp_all add: number_field_def parseable_def)

text \<open>What a number input reports is empty or parses to a finite number.\<close>

lemma number_input_value_field: "number_field (number_input_value typed)"
  by (simp add: number_input_value_def number_field_def)

lemma number_input_value_cases:
  "number_input_value typed = [] \<or> number_input_value typed = typed"
  by (simp add: number_input_value_def)

lemma handleInputChange_number_fields:
  "number_fields prev \<Longrightarrow> number_field v \<Longrightarrow> number_fields (handleInputChange f v prev)"
  by (cases f) (simp_all add: number_fields_def)

lemma input_event_number_fields:
  "number_fields prev \<Longrightarrow> number_fields (input_event prev ev)"
  by (simp add: input_event_def handleInputChange_number_fields number_input_value_field)

lemma foldl_input_event_number_fields:
  "number_fields fd \<Longrightarrow> number_fields (foldl input_event fd evs)"
proof (induction evs arbitrary: fd)
  case Nil
  then show ?case by simp
next
  case (Cons ev evs)
  from Cons.prems have "number_fields (input_event fd ev)"
    by (rule input_event_number_fields)
  then show ?case
    by (simp add: Cons.IH)
qed

lemma form_after_number_fields: "number_fields (form_after evs)"
  unfolding form_after_def
  by (rule foldl_input_event_number_fields)
     (simp add: number_fields_def number_field_def initial_form_def)

lemma number_fields_enabled:
  assumes "number_fields fd"
  shows "submit_enabled fd \<longleftrightarrow>
      (fd_pH fd \<noteq> [] \<and> parseable (fd_pH fd))
      \<and> (fd_turbidity fd \<noteq> [] \<and> parseable (fd_turbidity fd))
      \<and> (fd_temperature fd \<noteq> [] \<and> parseable (fd_temperature fd))
      \<and> (fd_dissolvedOxygen fd \<noteq> [] \<and> parseable (fd_dissolvedOxygen fd))"
  using assms number_field_parseable
  by (auto simp: submit_enabled_iff number_fields_def)

text \<open>
  C3. The form is filled only through its four number inputs, so each field is empty
  or the text of a number at all times (first conjunct, for every sequence of inputs).
  In every such state the submit button is enabled exactly when all four fields are
  non-empty parseable numbers: it is disabled whenever a field is empty, which is also
  what a field becomes when other text is typed into it, and enabled otherwise.
\<close>

theorem submit_enabled_iff_numeric:
  "number_fields (form_after evs)
   \<and> (number_fields fd \<longrightarrow>
        (submit_enabled fd \<longleftrightarrow>
           (fd_pH fd \<noteq> [] \<and> parseable (fd_pH fd))
           \<and> (fd_turbidity fd \<noteq> [] \<and> parseable (fd_turbidity fd))
           \<and> (fd_temperature fd \<noteq> [] \<and> parseable (fd_temperature fd))
           \<and> (fd_dissolvedOxygen fd \<noteq> [] \<and> parseable (fd_dissolvedOxygen fd))))
   \<and> (submit_enabled (form_after evs) \<longleftrightarrow>
           (fd_pH (form_after evs) \<noteq> [] \<and> parseable (fd_pH (form_after evs)))
           \<and> (fd_turbidity (form_after evs) \<noteq> [] \<and> parseable (fd_turbidity (form_after evs)))
           \<and> (fd_temperature (form_after evs) \<noteq> []
                \<and> parseable (fd_temperature (form_after evs)))
           \<and> (fd_dissolvedOxygen (form_after evs) \<noteq> []
                \<and> parseable (fd_dissolvedOxygen (form_after evs))))"
  using form_after_number_fields [of evs] number_fields_enabled [of fd]
    number_fields_enabled [of "form_after evs"]
  by blast

text \<open>The sample inputs: the numerals fill the form; \<open>abc\<close> leaves the pH field empty.\<close>

lemma parse_numerals:
  "isFinite (parseFloat ''7.2'')" "isFinite (parseFloat ''1.5'')"
  "isFinite (parseFloat ''-5'')" "isFinite (parseFloat ''8.5'')"
  by (simp_all add: parseFloat_def split_sign_def is_white_space_def is_digit_def
        fraction_digits_def after_fraction_def exponent_factor_def digits_value_def
        digit_value_def round_double_small)

lemma valid_numerals:
  "valid_floating_point_number ''7.2''" "valid_floating_point_number ''1.5''"
  "valid_floating_point_number ''-5''" "valid_floating_point_number ''8.5''"
  "\<not> valid_floating_point_number ''abc''"
  by (simp_all add: valid_floating_point_number_def valid_exponent_def is_digit_def
        fraction_digits_def after_fraction_def)

lemma form_after_numeric_inputs: "form_after numeric_inputs = form_numeric"
  by (simp add: form_after_def numeric_inputs_def input_event_def number_input_value_def
        parse_numerals valid_numerals initial_form_def form_numeric_def)

lemma form_after_abc_inputs: "form_after abc_inputs = form_numeric\<lparr>fd_pH := []\<rparr>"
  using form_after_numeric_inputs
  by (simp add: form_after_def abc_inputs_def input_event_def number_input_value_def
        valid_numerals)

theorem submit_enabled_iff_numeric_witness:
  "number_fields form_numeric
   \<and> submit_enabled (form_after numeric_inputs)
   \<and> parseable (fd_temperature (form_after numeric_inputs))
   \<and> \<not> submit_enabled (form_after abc_inputs)"
proof -
  have "number_fields form_numeric"
    using submit_enabled_iff_numeric [of numeric_inputs] form_after_numeric_inputs
    by simp
  moreover have "submit_enabled form_numeric"
    by (simp add: submit_enabled_iff form_numeric_def)
  moreover have "\<not> submit_enabled (form_after abc_inputs)"
    by (simp add: form_after_abc_inputs submit_enabled_iff)
  ultimately show ?thesis
    using submit_enabled_iff_numeric [of numeric_inputs form_numeric] form_after_numeric_inputs
    by simp
qed




subsection \<open>The history buffer\<close>

lemma js_slice_20: "js_slice_from (- 20) xs = keep_last 20 xs"
  by (simp add: js_slice_from_def keep_last_def Let_def max_def nat_diff_distrib)

lemma length_keep_last: "length (keep_last n xs) = min n (length xs)"
  by (simp add: keep_last_def)

lemma keep_last_short: "length xs \<le> n \<Longrightarrow> keep_last n xs = xs"
  by (simp add: keep_last_def)

lemma suffix_keep_last: "suffix (keep_last n xs) xs"
  by (simp add: keep_last_def suffix_drop)

lemma fold_update_by_key:
  "fold (\<lambda>w m. m(k w \<mapsto> f (k w))) ws m0 x =
     (if x \<in> k ` set ws then Some (f x) else m0 x)"
proof (induction ws arbitrary: m0)
  case Nil
  then show ?case by simp
next
  case (Cons w ws)
  have "fold (\<lambda>w m. m(k w \<mapsto> f (k w))) (w # ws) m0 x =
          fold (\<lambda>w m. m(k w \<mapsto> f (k w))) ws (m0(k w \<mapsto> f (k w))) x"
    by simp
  also have "\<dots> = (if x \<in> k ` set ws then Some (f x) else (m0(k w \<mapsto> f (k w))) x)"
    by (rule Cons.IH)
  also have "\<dots> = (if x \<in> k ` set (w # ws) then Some (f x) else m0 x)"
    by auto
  finally show ?case .
qed

lemma historicalData_tick:
  "historicalData (tick s e) site =
     (if site \<in> wb_id ` set waterBodies
        then Some (js_slice_from (- 20)
               (history_of (historicalData s) site
                  @ [generateWaterBodyData site (tick_history e site)]))
        else historicalData s site)"
  unfolding tick_def Let_def
  using fold_update_by_key [of wb_id
      "\<lambda>site. js_slice_from (- 20)
               (history_of (historicalData s) site
                  @ [generateWaterBodyData site (tick_history e site)])"
      waterBodies "historicalData s" site]
  by simp

lemma history_tick_site:
  assumes "wb \<in> set waterBodies"
  shows "history_of (historicalData (tick s e)) (wb_id wb) =
     js_slice_from (- 20)
       (history_of (historicalData s) (wb_id wb)
          @ [generateWaterBodyData (wb_id wb) (tick_history e (wb_id wb))])"
  using assms by (simp add: historicalData_tick history_of_def)

lemma history_tick_other:
  assumes "site \<notin> wb_id ` set waterBodies"
  shows "history_of (historicalData (tick s e)) site = history_of (historicalData s) site"
  using assms by (simp add: historicalData_tick history_of_def)

lemma tick_bounded:
  assumes "length (history_of (historicalData s) site) \<le> 20"
  shows "length (history_of (historicalData (tick s e)) site) \<le> 20"
proof (cases "site \<in> wb_id ` set waterBodies")
  case True
  then show ?thesis
    by (auto simp: history_tick_site js_slice_20 length_keep_last)
next
  case False
  with assms show ?thesis
    by (simp add: history_tick_other)
qed

lemma run_ticks_bounded:
  assumes "length (history_of (historicalData s) site) \<le> 20"
  shows "length (history_of (historicalData (run_ticks s es)) site) \<le> 20"
  using assms unfolding run_ticks_def
proof (induction es arbitrary: s)
  case Nil
  then show ?case by simp
next
  case (Cons e es)
  from Cons.prems have "length (history_of (historicalData (tick s e)) site) \<le> 20"
    by (rule tick_bounded)
  then show ?case
    by (simp add: Cons.IH)
qed

lemma seed_loop_map:
  "seed_loop gen now i historical =
     historical @ map (\<lambda>j. (gen j)\<lparr>timestamp := now j - (10 - int j) * 3000\<rparr>) [i..<10]"
proof (induction gen now i historical rule: seed_loop.induct)
  case (1 gen now i historical)
  show ?case
  proof (cases "i < 10")
    case True
    then have "[i..<10] = i # [i + 1..<10]"
      by (simp add: upt_conv_Cons)
    with True "1.IH" show ?thesis
      by (subst seed_loop.simps) simp
  next
    case False
    then show ?thesis
      by (subst seed_loop.simps) simp
  qed
qed

lemma fold_init_step:
  "snd (fold (init_step e) ws acc) x =
     (if x \<in> wb_id ` set ws
        then Some (seed_loop (\<lambda>i. generateWaterBodyData x (init_seed e x i)) (init_now e x) 0 [])
        else snd acc x)"
proof (induction ws arbitrary: acc)
  case Nil
  then show ?case by simp
next
  case (Cons w ws)
  have "snd (fold (init_step e) (w # ws) acc) x = snd (fold (init_step e) ws (init_step e w acc)) x"
    by simp
  also have "\<dots> = (if x \<in> wb_id ` set ws
        then Some (seed_loop (\<lambda>i. generateWaterBodyData x (init_seed e x i)) (init_now e x) 0 [])
        else snd (init_step e w acc) x)"
    by (rule Cons.IH)
  also have "\<dots> = (if x \<in> wb_id ` set (w # ws)
        then Some (seed_loop (\<lambda>i. generateWaterBodyData x (init_seed e x i)) (init_now e x) 0 [])
        else snd acc x)"
    by (auto simp: init_step_def Let_def)
  finally show ?case .
qed

lemma historicalData_initialize:
  "historicalData (initialize e) x =
     (if x \<in> wb_id ` set waterBodies
        then Some (seed_loop (\<lambda>i. generateWaterBodyData x (init_seed e x i)) (init_now e x) 0 [])
        else None)"
  by (simp add: initialize_def Let_def fold_init_step)

lemma upt_10: "[0..<10] = [0, 1, 2, 3, 4, 5, 6, 7, 8, 9::nat]"
  by code_simp

lemma seeded_timestamps:
  "map timestamp (seed_loop gen now 0 []) = map (\<lambda>i. now i - (10 - int i) * 3000) [0..<10]"
  unfolding seed_loop_map by simp

lemma length_seed_loop: "length (seed_loop gen now 0 []) = 10"
  unfolding seed_loop_map by simp

lemma seed_loop_nth:
  "i < 10 \<Longrightarrow> seed_loop gen now 0 [] ! i = (gen i)\<lparr>timestamp := now i - (10 - int i) * 3000\<rparr>"
  unfolding seed_loop_map by simp

lemma steady_seed_timestamps:
  assumes "\<forall>i<10. now i = t"
  shows "map timestamp (seed_loop gen now 0 []) = map (\<lambda>i. t - 30000 + 3000 * int i) [0..<10]"
  unfolding seeded_timestamps using assms by (simp add: algebra_simps)

lemma sorted_steps: "sorted_wrt (<) (map (\<lambda>i. t - 30000 + 3000 * int i) [0..<10])"
  by (simp add: sorted_wrt_map sorted_wrt_iff_nth_less)

lemma length_history_tick_site:
  assumes "wb \<in> set waterBodies"
  shows "length (history_of (historicalData (tick s e)) (wb_id wb)) =
           min 20 (length (history_of (historicalData s) (wb_id wb)) + 1)"
  using assms by (simp add: history_tick_site js_slice_20 length_keep_last)

lemma spec_append_facts:
  "suffix (spec_append prev r) (prev @ [r])"
  "last (spec_append prev r) = r"
  "length prev < 20 \<Longrightarrow> spec_append prev r = prev @ [r]"
  "20 \<le> length prev \<Longrightarrow> spec_append prev r = drop (length prev - 19) prev @ [r]"
  "20 \<le> length prev \<Longrightarrow> length (spec_append prev r) = 20"
  by (simp_all add: spec_append_def keep_last_def suffix_drop)

lemma history_initialize_site:
  assumes "wb \<in> set waterBodies"
  shows "historicalData (initialize e) (wb_id wb) =
    Some (seed_loop (\<lambda>i. generateWaterBodyData (wb_id wb) (init_seed e (wb_id wb) i))
            (init_now e (wb_id wb)) 0 [])"
  using assms by (simp add: historicalData_initialize)

lemma length_history_initialize:
  "length (history_of (historicalData (initialize e)) site) \<le> 10"
  by (simp add: history_of_def historicalData_initialize length_seed_loop)

lemma site_musi: "\<lparr>wb_id = ''musi-river'', wb_name = ''Musi River'',
        wb_location = ''Old City'', wb_type = River\<rparr> \<in> set waterBodies"
  by (simp add: waterBodies_def)

text \<open>
  C2. Every history has at most 20 entries at all times: in the state that
  initialization leaves, where each site has exactly 10, after any sequence of ticks from
  there, and after any sequence of ticks from the empty state the dashboard starts in.
  This holds at every key, so at every site.
\<close>

theorem history_bounded:
  "length (history_of (historicalData (run_ticks (initialize ie) es)) site) \<le> 20
   \<and> length (history_of (historicalData (run_ticks initial_dashboard es)) site) \<le> 20
   \<and> (\<forall>wb \<in> set waterBodies.
         length (history_of (historicalData (initialize ie)) (wb_id wb)) = 10)"
proof -
  have "length (history_of (historicalData (initialize ie)) site) \<le> 20"
    using length_history_initialize [of ie site] by linarith
  then have a: "length (history_of (historicalData (run_ticks (initialize ie) es)) site) \<le> 20"
    by (rule run_ticks_bounded)
  have "length (history_of (historicalData initial_dashboard) site) \<le> 20"
    by (simp add: initial_dashboard_def history_of_def)
  then have b: "length (history_of (historicalData (run_ticks initial_dashboard es)) site) \<le> 20"
    by (rule run_ticks_bounded)
  have c: "\<forall>wb \<in> set waterBodies.
         length (history_of (historicalData (initialize ie)) (wb_id wb)) = 10"
    by (simp add: history_of_def history_initialize_site length_seed_loop)
  from a b c show ?thesis by blast
qed

theorem history_bounded_witness:
  "length (history_of (historicalData
      (run_ticks (initialize steady_init) [steady_tick, steady_tick])) ''musi-river'') \<le> 20
   \<and> length (history_of (historicalData (initialize steady_init)) ''musi-river'') = 10"
  using history_bounded [of steady_init "[steady_tick, steady_tick]" "''musi-river''"] site_musi
  by fastforce

text \<open>
  C4. For every site and every previous state, the history after a tick is the previous
  history with the new reading appended and then cut to its last 20 entries (the
  specification's \<open>spec_append\<close>); the single-site dashboard computes the same. The
  result is a suffix of the appended list, so the order is kept and entries are only
  dropped from the front; its last entry is the new reading; below 20 previous entries
  nothing is dropped, and from 20 on the result has exactly 20 entries.
\<close>

theorem history_append:
  "(\<forall>wb \<in> set waterBodies.
      history_of (historicalData (tick s e)) (wb_id wb) =
        spec_append (history_of (historicalData s) (wb_id wb))
          (generateWaterBodyData (wb_id wb) (tick_history e (wb_id wb))))
   \<and> single_site_tick prev r = spec_append prev r
   \<and> suffix (spec_append prev r) (prev @ [r])
   \<and> last (spec_append prev r) = r
   \<and> (length prev < 20 \<longrightarrow> spec_append prev r = prev @ [r])
   \<and> (20 \<le> length prev \<longrightarrow>
        spec_append prev r = drop (length prev - 19) prev @ [r]
        \<and> length (spec_append prev r) = 20)"
proof -
  have "\<forall>wb \<in> set waterBodies.
      history_of (historicalData (tick s e)) (wb_id wb) =
        spec_append (history_of (historicalData s) (wb_id wb))
          (generateWaterBodyData (wb_id wb) (tick_history e (wb_id wb)))"
    by (simp add: history_tick_site js_slice_20 spec_append_def)
  moreover have "single_site_tick prev r = spec_append prev r"
    by (simp add: single_site_tick_def Let_def js_slice_20 spec_append_def)
  ultimately show ?thesis
    using spec_append_facts [of prev r] by blast
qed

theorem history_append_witness:
  "history_of (historicalData (tick initial_dashboard steady_tick)) ''musi-river'' =
     [generateWaterBodyData ''musi-river'' lowest_draws]
   \<and> spec_append [] (generateWaterBodyData ''musi-river'' lowest_draws) =
       [generateWaterBodyData ''musi-river'' lowest_draws]"
proof -
  have "history_of (historicalData initial_dashboard) ''musi-river'' = []"
    by (simp add: initial_dashboard_def history_of_def)
  moreover have "tick_history steady_tick ''musi-river'' = lowest_draws"
    by (simp add: steady_tick_def)
  ultimately show ?thesis
    using history_append [of initial_dashboard steady_tick "[]"
        "generateWaterBodyData ''musi-river'' lowest_draws"] site_musi
    by fastforce
qed

text \<open>
  C8 as stated fails: the seeded history does not end at the initialization instant.
  With the clock at 30000 ms in every round of the loop, the ten timestamps are
  0, 3000, ..., 27000: round \<open>i\<close> is backdated by \<open>(10 - i) * 3000\<close>, which is still
  3000 in the last round.
\<close>

theorem seeded_history_counterexample:
  "init_now steady_init ''hussain-sagar'' 9 = 30000
   \<and> map timestamp (history_of (historicalData (initialize steady_init)) ''hussain-sagar'') =
       [0, 3000, 6000, 9000, 12000, 15000, 18000, 21000, 24000, 27000]
   \<and> timestamp (last (history_of (historicalData (initialize steady_init)) ''hussain-sagar''))
       \<noteq> 30000"
proof -
  have h: "history_of (historicalData (initialize steady_init)) ''hussain-sagar'' =
      seed_loop (\<lambda>i. generateWaterBodyData ''hussain-sagar'' lowest_draws) (\<lambda>i. 30000) 0 []"
    using history_initialize_site [OF site_hussain, of steady_init]
    by (simp add: history_of_def steady_init_def)
  have m: "map timestamp (history_of (historicalData (initialize steady_init)) ''hussain-sagar'') =
       [0, 3000, 6000, 9000, 12000, 15000, 18000, 21000, 24000, 27000]"
    unfolding h seeded_timestamps upt_10 by simp
  have "history_of (historicalData (initialize steady_init)) ''hussain-sagar'' \<noteq> []"
    using m by auto
  then have "timestamp (last (history_of (historicalData (initialize steady_init)) ''hussain-sagar''))
      = last (map timestamp (history_of (historicalData (initialize steady_init)) ''hussain-sagar''))"
    by (simp add: last_map)
  with m show ?thesis
    by (simp add: steady_init_def)
qed

text \<open>
  C8, amended. Initialization seeds each site's history with exactly 10 generated
  readings; when the clock reads the same instant \<open>t\<close> in every round of the loop,
  their timestamps are \<open>t - 30000, t - 27000, ..., t - 3000\<close>: backdated, 3 seconds
  apart, oldest first, the first 30 seconds and the last 3 seconds before \<open>t\<close>. The
  single-site dashboard seeds its history in the same way.
\<close>

theorem seeded_history:
  assumes "\<forall>i<10. now i = t"
  shows "(\<forall>wb \<in> set waterBodies. (\<forall>i<10. init_now e (wb_id wb) i = t) \<longrightarrow>
      (\<exists>h. historicalData (initialize e) (wb_id wb) = Some h
         \<and> length h = 10
         \<and> (\<forall>i<10. h ! i = (generateWaterBodyData (wb_id wb) (init_seed e (wb_id wb) i))
                \<lparr>timestamp := t - 30000 + 3000 * int i\<rparr>)
         \<and> map timestamp h = map (\<lambda>i. t - 30000 + 3000 * int i) [0..<10]))
    \<and> length (single_site_initialize ds now) = 10
    \<and> map timestamp (single_site_initialize ds now) =
        map (\<lambda>i. t - 30000 + 3000 * int i) [0..<10]
    \<and> sorted_wrt (<) (map (\<lambda>i. t - 30000 + 3000 * int i) [0..<10])
    \<and> hd (map (\<lambda>i. t - 30000 + 3000 * int i) [0..<10]) = t - 30000
    \<and> last (map (\<lambda>i. t - 30000 + 3000 * int i) [0..<10]) = t - 3000"
proof -
  have a: "\<forall>wb \<in> set waterBodies. (\<forall>i<10. init_now e (wb_id wb) i = t) \<longrightarrow>
      (\<exists>h. historicalData (initialize e) (wb_id wb) = Some h
         \<and> length h = 10
         \<and> (\<forall>i<10. h ! i = (generateWaterBodyData (wb_id wb) (init_seed e (wb_id wb) i))
                \<lparr>timestamp := t - 30000 + 3000 * int i\<rparr>)
         \<and> map timestamp h = map (\<lambda>i. t - 30000 + 3000 * int i) [0..<10])"
  proof (intro ballI impI)
    fix wb assume wb: "wb \<in> set waterBodies" and c: "\<forall>i<10. init_now e (wb_id wb) i = t"
    let ?h = "seed_loop (\<lambda>i. generateWaterBodyData (wb_id wb) (init_seed e (wb_id wb) i))
            (init_now e (wb_id wb)) 0 []"
    have "historicalData (initialize e) (wb_id wb) = Some ?h"
      by (rule history_initialize_site [OF wb])
    moreover have "length ?h = 10"
      by (rule length_seed_loop)
    moreover have "\<forall>i<10. ?h ! i = (generateWaterBodyData (wb_id wb) (init_seed e (wb_id wb) i))
                \<lparr>timestamp := t - 30000 + 3000 * int i\<rparr>"
      using c by (simp add: seed_loop_nth algebra_simps)
    moreover have "map timestamp ?h = map (\<lambda>i. t - 30000 + 3000 * int i) [0..<10]"
      using c by (rule steady_seed_timestamps)
    ultimately show "\<exists>h. historicalData (initialize e) (wb_id wb) = Some h
         \<and> length h = 10
         \<and> (\<forall>i<10. h ! i = (generateWaterBodyData (wb_id wb) (init_seed e (wb_id wb) i))
                \<lparr>timestamp := t - 30000 + 3000 * int i\<rparr>)
         \<and> map timestamp h = map (\<lambda>i. t - 30000 + 3000 * int i) [0..<10]"
      by blast
  qed
  have b: "length (single_site_initialize ds now) = 10"
    by (simp add: single_site_initialize_def length_seed_loop)
  have c: "map timestamp (single_site_initialize ds now) =
        map (\<lambda>i. t - 30000 + 3000 * int i) [0..<10]"
    unfolding single_site_initialize_def using assms by (rule steady_seed_timestamps)
  have d: "hd (map (\<lambda>i. t - 30000 + 3000 * int i) [0..<10]) = t - 30000"
    "last (map (\<lambda>i. t - 30000 + 3000 * int i) [0..<10]) = t - 3000"
    unfolding upt_10 by simp_all
  from a b c d sorted_steps [of t] show ?thesis by blast
qed

theorem seeded_history_witness:
  "init_now steady_init ''musi-river'' 0 = 30000
   \<and> init_now steady_init ''musi-river'' 9 = 30000
   \<and> (\<exists>h. historicalData (initialize steady_init) ''musi-river'' = Some h \<and> length h = 10
        \<and> map timestamp h = map (\<lambda>i. 3000 * int i) [0..<10])
   \<and> map timestamp (single_site_initialize (\<lambda>i. lowest_draws) (\<lambda>i. 30000)) =
        map (\<lambda>i. 3000 * int i) [0..<10]"
proof -
  have c: "\<forall>i<10. (\<lambda>i. 30000::int) i = 30000"
    by simp
  have s: "\<forall>i<10. init_now steady_init ''musi-river'' i = 30000"
    by (simp add: steady_init_def)
  from seeded_history [OF c, of steady_init "\<lambda>i. lowest_draws"] site_musi s
  show ?thesis
    by fastforce
qed

end
